theory Spec2Isabelle
  imports Main
begin

section \<open>The global factory (interop/global\_factory.cpp)\<close>

text \<open>
  The global factory is one object, \<^verbatim>\<open>g_factory\<close>, whose public member functions
  each take \<^verbatim>\<open>mutex_\<close> for their whole body. The model is therefore sequential:
  a member function is a function from the state before the call to an outcome, and the
  acquisition of the mutex itself is taken to succeed.

  The file is compiled in one of two configurations, selected by the macro
  \<^verbatim>\<open>WINUWP\<close>. The model carries the macro as the boolean \<open>winuwp\<close>:
  the desktop build (\<open>winuwp = False\<close>) owns the three threads
  \<^verbatim>\<open>network_thread_\<close>, \<^verbatim>\<open>worker_thread_\<close> and
  \<^verbatim>\<open>signaling_thread_\<close>; the UWP build owns \<^verbatim>\<open>impl_\<close>, the wrapper
  factory that holds the threads. A member that a build does not have is never written by
  the functions of that build. Members are named as in the class, without the trailing
  underscore (\<^verbatim>\<open>factory_\<close> is \<open>factory\<close>, and so on).

  Not among the calls modelled: \<^verbatim>\<open>GetWorkerThread\<close>, which only reads, and the
  destructor, which logs the objects still alive, calls \<^verbatim>\<open>ShutdownNoLock\<close> and
  ends the lifetime of the object.
\<close>

datatype ObjectType = kPeerConnection | kLocalVideoTrack | kExternalVideoTrackSource

text \<open>A tracked object is identified by its address; owned engine objects by a handle.\<close>

type_synonym TrackedObject = nat
type_synonym handle = nat

datatype mrsResult = kSuccess | kUnknownError | kWrongThread

text \<open>
  How a C++ call ends: it returns, it leaves by an exception, or the process is aborted by
  a failed \<^verbatim>\<open>RTC_CHECK\<close> (which no \<^verbatim>\<open>catch\<close> intercepts).
\<close>

datatype 'a outcome = Returned 'a | Thrown | Aborted

record GlobalFactory =
  factory :: "handle option"
  impl :: "handle option"
  network_thread :: "handle option"
  worker_thread :: "handle option"
  signaling_thread :: "handle option"
  alive_objects :: "TrackedObject \<rightharpoonup> ObjectType"

text \<open>
  What the wrapped engine answers during one run of \<^verbatim>\<open>Initialize\<close>: a null
  pointer is \<open>None\<close>. \<open>HasThreadAccess\<close>, \<open>make_WebRtcFactory\<close> and
  \<open>peerConnectionFactory\<close> are read by the UWP build only, the other four by the
  desktop build only.
\<close>

record engine =
  HasThreadAccess :: bool
  make_WebRtcFactory :: handle
  peerConnectionFactory :: "handle option"
  CreateWithSocketServer :: "handle option"
  Create_worker :: "handle option"
  Create_signaling :: "handle option"
  CreatePeerConnectionFactory :: "handle option"

text \<open>\<^verbatim>\<open>std::make_unique<GlobalFactory>()\<close>: every member empty.\<close>

definition g_factory :: GlobalFactory where
  "g_factory =
     \<lparr>factory = None, impl = None, network_thread = None, worker_thread = None,
      signaling_thread = None, alive_objects = Map.empty\<rparr>"

definition success_of :: "handle option \<Rightarrow> mrsResult" where
  "success_of p = (if p \<noteq> None then kSuccess else kUnknownError)"

definition Initialize ::
  "bool \<Rightarrow> engine \<Rightarrow> GlobalFactory \<Rightarrow> (mrsResult \<times> GlobalFactory) outcome" where
  "Initialize winuwp e s =
     (if factory s \<noteq> None then Aborted
      else if winuwp then
        (if impl s \<noteq> None then Aborted
         else if HasThreadAccess e then Returned (kWrongThread, s)
         else
           let s1 = s\<lparr>impl := Some (make_WebRtcFactory e)\<rparr>;
               s2 = s1\<lparr>factory := peerConnectionFactory e\<rparr>
           in Returned (success_of (factory s2), s2))
      else
        (case CreateWithSocketServer e of
           None \<Rightarrow> Aborted
         | Some n \<Rightarrow>
            (case Create_worker e of
               None \<Rightarrow> Aborted
             | Some wk \<Rightarrow>
                (case Create_signaling e of
                   None \<Rightarrow> Aborted
                 | Some sg \<Rightarrow>
                    let s1 = s\<lparr>network_thread := Some n\<rparr>;
                        s2 = s1\<lparr>worker_thread := Some wk\<rparr>;
                        s3 = s2\<lparr>signaling_thread := Some sg\<rparr>;
                        s4 = s3\<lparr>factory := CreatePeerConnectionFactory e\<rparr>
                    in Returned (success_of (factory s4), s4)))))"

definition ShutdownNoLock :: "bool \<Rightarrow> GlobalFactory \<Rightarrow> GlobalFactory" where
  "ShutdownNoLock winuwp s =
     (if winuwp then s\<lparr>factory := None, impl := None\<rparr>
      else s\<lparr>factory := None, network_thread := None, worker_thread := None,
             signaling_thread := None\<rparr>)"

text \<open>
  The overload of \<^verbatim>\<open>GetOrCreate\<close> that returns the reference-counted pointer
  (null on failure).
\<close>

definition GetOrCreate ::
  "bool \<Rightarrow> engine \<Rightarrow> GlobalFactory \<Rightarrow> (handle option \<times> GlobalFactory) outcome" where
  "GetOrCreate winuwp e s =
     (if factory s = None then
        (case Initialize winuwp e s of
           Returned (res, s') \<Rightarrow>
             if res \<noteq> kSuccess then Returned (None, s') else Returned (factory s', s')
         | Thrown \<Rightarrow> Thrown
         | Aborted \<Rightarrow> Aborted)
      else Returned (factory s, s))"

text \<open>
  The overload with the out-parameter \<^verbatim>\<open>factory\<close>: the result pairs the
  returned \<^verbatim>\<open>mrsResult\<close> with the value the out-parameter holds at the return.
\<close>

definition GetOrCreate_out ::
  "bool \<Rightarrow> engine \<Rightarrow> GlobalFactory \<Rightarrow> ((mrsResult \<times> handle option) \<times> GlobalFactory) outcome" where
  "GetOrCreate_out winuwp e s =
     (if factory s = None then
        (case Initialize winuwp e s of
           Returned (res, s') \<Rightarrow>
             if res \<noteq> kSuccess then Returned ((res, None), s')
             else Returned ((success_of (factory s'), factory s'), s')
         | Thrown \<Rightarrow> Thrown
         | Aborted \<Rightarrow> Aborted)
      else Returned ((success_of (factory s), factory s), s))"

text \<open>
  The two accessors of the UWP build (\<^verbatim>\<open>#if defined(WINUWP)\<close>), which test
  \<^verbatim>\<open>impl_\<close> where \<^verbatim>\<open>GetOrCreate\<close> tests \<^verbatim>\<open>factory_\<close>.
\<close>

definition get :: "engine \<Rightarrow> GlobalFactory \<Rightarrow> (handle option \<times> GlobalFactory) outcome" where
  "get e s =
     (if impl s = None then
        (case Initialize True e s of
           Returned (res, s') \<Rightarrow>
             if res \<noteq> kSuccess then Returned (None, s') else Returned (impl s', s')
         | Thrown \<Rightarrow> Thrown
         | Aborted \<Rightarrow> Aborted)
      else Returned (impl s, s))"

definition GetOrCreateWebRtcFactory ::
  "engine \<Rightarrow> GlobalFactory \<Rightarrow> ((mrsResult \<times> handle option) \<times> GlobalFactory) outcome" where
  "GetOrCreateWebRtcFactory e s =
     (if impl s = None then
        (case Initialize True e s of
           Returned (res, s') \<Rightarrow>
             if res \<noteq> kSuccess then Returned ((res, None), s')
             else Returned ((success_of (impl s'), impl s'), s')
         | Thrown \<Rightarrow> Thrown
         | Aborted \<Rightarrow> Aborted)
      else Returned ((success_of (impl s), impl s), s))"

definition GetExisting :: "GlobalFactory \<Rightarrow> (handle option \<times> GlobalFactory) outcome" where
  "GetExisting s = Returned (factory s, s)"

text \<open>
  \<^verbatim>\<open>try { body } catch (...) { }\<close> in a function that mutates nothing before the
  throwing statement: an exception ends the call normally in the state \<open>s\<close> it started
  from; an abort is not an exception.
\<close>

definition catch_all :: "'a outcome \<Rightarrow> 'a \<Rightarrow> 'a outcome" where
  "catch_all r s = (case r of Thrown \<Rightarrow> Returned s | _ \<Rightarrow> r)"

text \<open>
  \<^verbatim>\<open>alive_objects_.emplace(obj, type)\<close>: inserts unless the key is present (an
  existing entry is kept as it is); \<open>throws\<close> says that the insertion throws (the
  node allocation fails), in which case the container is unchanged.
\<close>

definition emplace ::
  "TrackedObject \<Rightarrow> ObjectType \<Rightarrow> (TrackedObject \<rightharpoonup> ObjectType) \<Rightarrow> (TrackedObject \<rightharpoonup> ObjectType)" where
  "emplace obj type m = (if m obj = None then m(obj \<mapsto> type) else m)"

definition AddObject_body ::
  "bool \<Rightarrow> ObjectType \<Rightarrow> TrackedObject \<Rightarrow> GlobalFactory \<Rightarrow> GlobalFactory outcome" where
  "AddObject_body throws type obj s =
     (if throws then Thrown
      else Returned (s\<lparr>alive_objects := emplace obj type (alive_objects s)\<rparr>))"

definition AddObject ::
  "bool \<Rightarrow> ObjectType \<Rightarrow> TrackedObject \<Rightarrow> GlobalFactory \<Rightarrow> GlobalFactory outcome" where
  "AddObject throws type obj s = catch_all (AddObject_body throws type obj s) s"

definition RemoveObject_body ::
  "bool \<Rightarrow> ObjectType \<Rightarrow> TrackedObject \<Rightarrow> GlobalFactory \<Rightarrow> GlobalFactory outcome" where
  "RemoveObject_body winuwp type obj s =
     (case alive_objects s obj of
        None \<Rightarrow> Returned s
      | Some recorded \<Rightarrow>
          if recorded \<noteq> type then Aborted
          else
            let s1 = s\<lparr>alive_objects := (alive_objects s)(obj := None)\<rparr>
            in if alive_objects s1 = Map.empty then Returned (ShutdownNoLock winuwp s1)
               else Returned s1)"

definition RemoveObject ::
  "bool \<Rightarrow> ObjectType \<Rightarrow> TrackedObject \<Rightarrow> GlobalFactory \<Rightarrow> GlobalFactory outcome" where
  "RemoveObject winuwp type obj s = catch_all (RemoveObject_body winuwp type obj s) s"

subsection \<open>States and call sequences\<close>

text \<open>
  The two states of the lifecycle. The threads of the UWP build live inside
  \<^verbatim>\<open>impl_\<close>, so there they are present exactly when \<^verbatim>\<open>impl_\<close> is.
\<close>

definition threads_present :: "bool \<Rightarrow> GlobalFactory \<Rightarrow> bool" where
  "threads_present winuwp s =
     (if winuwp then impl s \<noteq> None
      else network_thread s \<noteq> None \<and> worker_thread s \<noteq> None \<and> signaling_thread s \<noteq> None)"

definition threads_absent :: "bool \<Rightarrow> GlobalFactory \<Rightarrow> bool" where
  "threads_absent winuwp s =
     (if winuwp then impl s = None
      else network_thread s = None \<and> worker_thread s = None \<and> signaling_thread s = None)"

definition Uninitialized :: "bool \<Rightarrow> GlobalFactory \<Rightarrow> bool" where
  "Uninitialized winuwp s = (factory s = None \<and> threads_absent winuwp s)"

definition Ready :: "bool \<Rightarrow> GlobalFactory \<Rightarrow> bool" where
  "Ready winuwp s = (factory s \<noteq> None \<and> threads_present winuwp s)"

text \<open>The handle the engine builds in this run, and an engine on which the run succeeds.\<close>

definition new_factory :: "bool \<Rightarrow> engine \<Rightarrow> handle option" where
  "new_factory winuwp e =
     (if winuwp then peerConnectionFactory e else CreatePeerConnectionFactory e)"

definition engine_ok :: "bool \<Rightarrow> engine \<Rightarrow> bool" where
  "engine_ok winuwp e =
     (new_factory winuwp e \<noteq> None \<and>
      (if winuwp then \<not> HasThreadAccess e
       else CreateWithSocketServer e \<noteq> None \<and> Create_worker e \<noteq> None \<and>
            Create_signaling e \<noteq> None))"

text \<open>
  What holds of the handle and the threads in every state the factory reaches: a handle
  is never present without the threads, and the threads are all present or all absent.
\<close>

definition lifecycle_inv :: "bool \<Rightarrow> GlobalFactory \<Rightarrow> bool" where
  "lifecycle_inv winuwp s =
     ((factory s \<noteq> None \<longrightarrow> threads_present winuwp s) \<and>
      (threads_present winuwp s \<or> threads_absent winuwp s))"

text \<open>
  The engine and the state let \<^verbatim>\<open>Initialize\<close> run to its \<^verbatim>\<open>return\<close>:
  in the desktop build the three threads are created (else an \<^verbatim>\<open>RTC_CHECK\<close>
  aborts), in the UWP build \<^verbatim>\<open>impl_\<close> is not set yet
  (\<^verbatim>\<open>RTC_CHECK(!impl_)\<close>).
\<close>

definition threads_start :: "bool \<Rightarrow> engine \<Rightarrow> GlobalFactory \<Rightarrow> bool" where
  "threads_start winuwp e s =
     (if winuwp then impl s = None
      else CreateWithSocketServer e \<noteq> None \<and> Create_worker e \<noteq> None \<and>
           Create_signaling e \<noteq> None)"

text \<open>
  A call of a public member function, with what the environment answers during it, and
  the states a sequence of calls goes through. The desktop build has no
  \<^verbatim>\<open>get\<close> and no \<^verbatim>\<open>GetOrCreateWebRtcFactory\<close>: there such a call
  cannot be made and is skipped.
\<close>

datatype call =
    CallGetOrCreate engine
  | CallGetOrCreate_out engine
  | CallGetExisting
  | CallGet engine
  | CallGetOrCreateWebRtcFactory engine
  | CallAddObject bool ObjectType TrackedObject
  | CallRemoveObject ObjectType TrackedObject

fun step :: "bool \<Rightarrow> call \<Rightarrow> GlobalFactory \<Rightarrow> GlobalFactory outcome" where
  "step winuwp (CallGetOrCreate e) s = map_outcome snd (GetOrCreate winuwp e s)"
| "step winuwp (CallGetOrCreate_out e) s = map_outcome snd (GetOrCreate_out winuwp e s)"
| "step winuwp CallGetExisting s = map_outcome snd (GetExisting s)"
| "step winuwp (CallGet e) s =
     (if winuwp then map_outcome snd (get e s) else Returned s)"
| "step winuwp (CallGetOrCreateWebRtcFactory e) s =
     (if winuwp then map_outcome snd (GetOrCreateWebRtcFactory e s) else Returned s)"
| "step winuwp (CallAddObject throws type obj) s = AddObject throws type obj s"
| "step winuwp (CallRemoveObject type obj) s = RemoveObject winuwp type obj s"

fun run :: "bool \<Rightarrow> call list \<Rightarrow> GlobalFactory \<Rightarrow> GlobalFactory outcome" where
  "run winuwp [] s = Returned s"
| "run winuwp (c # cs) s =
     (case step winuwp c s of
        Returned s' \<Rightarrow> run winuwp cs s'
      | Thrown \<Rightarrow> Thrown
      | Aborted \<Rightarrow> Aborted)"

text \<open>The call unregisters the last alive object.\<close>

fun empties :: "call \<Rightarrow> GlobalFactory \<Rightarrow> bool" where
  "empties (CallRemoveObject type obj) s =
     (alive_objects s obj \<noteq> None \<and> (alive_objects s)(obj := None) = Map.empty)"
| "empties c s = False"

fun no_teardown :: "bool \<Rightarrow> call list \<Rightarrow> GlobalFactory \<Rightarrow> bool" where
  "no_teardown winuwp [] s = True"
| "no_teardown winuwp (c # cs) s =
     (\<not> empties c s \<and>
      (case step winuwp c s of Returned s' \<Rightarrow> no_teardown winuwp cs s' | _ \<Rightarrow> True))"

section \<open>The audio read stream (peer\_connection.h)\<close>

subsection \<open>\<^verbatim>\<open>AudioReadStream::Buffer\<close>, from the header\<close>

text \<open>
  \<^verbatim>\<open>used_\<close>, \<^verbatim>\<open>channels_\<close>, \<^verbatim>\<open>rate_\<close> and the argument
  \<^verbatim>\<open>dstLen\<close> are of type \<^verbatim>\<open>int\<close> (32 bits, two's complement); the size
  of \<^verbatim>\<open>data_\<close> is a \<^verbatim>\<open>size_t\<close>. \<open>int32\<close> is the value an \<^verbatim>\<open>int\<close>
  holds after a conversion or an operation whose mathematical result is \<open>x\<close>
  (two's-complement wrap-around, which is what the conversion from \<^verbatim>\<open>size_t\<close>
  does on the compilers the project targets). Samples
  are opaque (\<open>'a\<close> for \<^verbatim>\<open>float\<close>); \<^verbatim>\<open>resampler_\<close> is not read
  by the functions modelled.
\<close>

definition int32 :: "int \<Rightarrow> int" where
  "int32 x = (x + 2 ^ 31) mod 2 ^ 32 - 2 ^ 31"

record 'a Buffer =
  data :: "'a list"
  used :: int
  channels :: int
  rate :: int

definition available :: "'a Buffer \<Rightarrow> int" where
  "available b = int32 (int32 (int (length (data b))) - used b)"

datatype fault = OutOfBounds

text \<open>
  \<^verbatim>\<open>readSome\<close> returns \<^verbatim>\<open>take\<close>, here with the samples that
  \<^verbatim>\<open>memcpy\<close> writes to \<^verbatim>\<open>dst[0 .. take)\<close> and the buffer after the
  call. \<^verbatim>\<open>memcpy\<close> reads \<^verbatim>\<open>take * sizeof(float)\<close> bytes (a
  \<^verbatim>\<open>size_t\<close>, so a negative \<^verbatim>\<open>take\<close> is a huge count) from
  \<^verbatim>\<open>data_.data() + used_\<close>; the read is a fault unless it lies inside the vector.
\<close>

definition readSome :: "'a Buffer \<Rightarrow> int \<Rightarrow> fault + (int \<times> 'a list \<times> 'a Buffer)" where
  "readSome b dstLen =
     (let taken = min (available b) dstLen in
      if 0 \<le> used b \<and> 0 \<le> taken \<and> used b + taken \<le> int (length (data b))
      then Inr (taken, take (nat taken) (drop (nat (used b)) (data b)),
                b\<lparr>used := int32 (used b + taken)\<rparr>)
      else Inl OutOfBounds)"

text \<open>The invariant of the claim: \<open>0 \<le> used_ \<le> data_.size()\<close>.\<close>

definition Buffer_inv :: "'a Buffer \<Rightarrow> bool" where
  "Buffer_inv b = (0 \<le> used b \<and> used b \<le> int (length (data b)))"

subsection \<open>The frame buffer and \<^verbatim>\<open>read\<close>\<close>

text \<open>
  Modelled from the spec: the bodies of \<^verbatim>\<open>AudioReadStream::Read\<close>,
  \<^verbatim>\<open>bufferNextFrame\<close>, \<^verbatim>\<open>audioFrameCallback\<close> and
  \<^verbatim>\<open>Buffer::addFrame\<close> are not among the sources (the header only declares
  them). The data are those of the spec's data model; this is its audio frame (the payload
  as bytes).
\<close>

record AudioFrame =
  payload :: "nat list"
  bitsPerSample :: nat
  sampleRate :: nat
  channelCount :: nat
  frameCount :: nat

text \<open>
  Modelled from the spec: the per-consumer resample cursor of the spec's data model (the
  working buffer of already resampled samples and the offset consumed so far), in place
  of the missing code that drives \<^verbatim>\<open>Buffer\<close>.
\<close>

record 'a ResampleCursor =
  pendingSamples :: "'a list"
  consumedOffset :: nat
  targetRate :: nat
  targetChannels :: nat

text \<open>
  Modelled from the spec: the frame buffer (the members \<^verbatim>\<open>frames_\<close>,
  \<^verbatim>\<open>buffer_\<close> and \<^verbatim>\<open>buffer_ms_\<close> as the spec describes their use):
  the FIFO of raw frames, oldest first, the cursor, and the configured horizon.
\<close>

record 'a FrameBuffer =
  fifo :: "AudioFrame list"
  cursor :: "'a ResampleCursor"
  bufferMs :: int

text \<open>
  Modelled from the spec: \<^verbatim>\<open>pushFrame\<close> (the body of
  \<^verbatim>\<open>audioFrameCallback\<close> is missing) appends to the tail of the FIFO.
\<close>

definition pushFrame :: "AudioFrame \<Rightarrow> 'a FrameBuffer \<Rightarrow> 'a FrameBuffer" where
  "pushFrame frame st = st\<lparr>fifo := fifo st @ [frame]\<rparr>"

text \<open>
  Modelled from the spec: the buffer horizon (the constructor's body is missing). A
  \<open>bufferMs\<close> of \<open>-1\<close> selects the automatically chosen horizon \<open>autoMs\<close>, which
  the spec leaves to the implementation and is a parameter here.
\<close>

definition horizonMs :: "int \<Rightarrow> int \<Rightarrow> int" where
  "horizonMs autoMs ms = (if ms = - 1 then autoMs else ms)"

text \<open>
  Modelled from the spec: the cadence of the producer, which delivers slices of 10 ms
  (the header says the same of WebRTC); a raw frame stands for one slice.
\<close>

definition sliceMs :: int where
  "sliceMs = 10"

text \<open>
  Modelled from the spec: the overrun policy of \<^verbatim>\<open>read\<close> (the body of
  \<^verbatim>\<open>AudioReadStream::Read\<close> is missing). While the unread raw frames stand for
  more than the horizon, the oldest one is dropped.
\<close>

fun dropOldest :: "int \<Rightarrow> AudioFrame list \<Rightarrow> AudioFrame list" where
  "dropOldest h [] = []"
| "dropOldest h (f # fs) =
     (if h < int (length (f # fs)) * sliceMs then dropOldest h fs else f # fs)"

text \<open>
  Modelled from the spec: the number of unread samples of the working buffer (what
  \<^verbatim>\<open>Buffer::available\<close> is to the missing code).
\<close>

definition unread :: "'a ResampleCursor \<Rightarrow> nat" where
  "unread c = length (pendingSamples c) - consumedOffset c"

text \<open>
  Modelled from the spec: the refill loop of \<^verbatim>\<open>read\<close> (the bodies of
  \<^verbatim>\<open>bufferNextFrame\<close> and \<^verbatim>\<open>Buffer::addFrame\<close> are missing). While
  the working buffer has fewer than \<open>n\<close> unread samples and the FIFO is not exhausted,
  the oldest raw frame is resampled (\<open>rs\<close>, the external resampler at the target rate
  and channel count), appended to the working buffer and discarded from the FIFO.
\<close>

fun refill ::
  "(AudioFrame \<Rightarrow> 'a list) \<Rightarrow> nat \<Rightarrow> AudioFrame list \<Rightarrow> 'a ResampleCursor
     \<Rightarrow> AudioFrame list \<times> 'a ResampleCursor" where
  "refill rs n [] c = ([], c)"
| "refill rs n (f # fs) c =
     (if unread c < n
      then refill rs n fs (c\<lparr>pendingSamples := pendingSamples c @ rs f\<rparr>)
      else (f # fs, c))"

text \<open>
  Modelled from the spec: \<^verbatim>\<open>read(targetRate, targetChannels, outBuffer[N])\<close>
  (the body of \<^verbatim>\<open>AudioReadStream::Read\<close> is missing). The overrun policy runs
  first, then the refill; the output is the unread real samples, at most \<open>n\<close> of them,
  followed by synthesized filler (\<open>filler i\<close> is the \<open>i\<close>-th filler sample) for the
  remainder. The result is the contents of \<^verbatim>\<open>outBuffer\<close> and the state after
  the call; there is no error return.
\<close>

definition read ::
  "(nat \<Rightarrow> nat \<Rightarrow> AudioFrame \<Rightarrow> 'a list) \<Rightarrow> (nat \<Rightarrow> 'a) \<Rightarrow> int
     \<Rightarrow> nat \<Rightarrow> nat \<Rightarrow> nat \<Rightarrow> 'a FrameBuffer \<Rightarrow> 'a list \<times> 'a FrameBuffer" where
  "read resample filler autoMs rate' channels' n st =
     (let retained = dropOldest (horizonMs autoMs (bufferMs st)) (fifo st);
          c0 = (cursor st)\<lparr>targetRate := rate', targetChannels := channels'\<rparr>;
          (fs1, c1) = refill (resample rate' channels') n retained c0;
          real = take n (drop (consumedOffset c1) (pendingSamples c1));
          out = real @ map filler [0..<n - length real];
          c2 = c1\<lparr>consumedOffset := consumedOffset c1 + length real\<rparr>
      in (out, st\<lparr>fifo := fs1, cursor := c2\<rparr>))"


section \<open>Concrete engines, states and buffers\<close>

text \<open>
  An engine on which every construction succeeds, one whose factory construction returns
  null, and one whose caller is the UI thread; and a state of the desktop build after a
  successful initialization and the registration of one peer connection.
\<close>

definition engine_good :: engine where
  "engine_good =
     \<lparr>HasThreadAccess = False, make_WebRtcFactory = 10, peerConnectionFactory = Some 11,
      CreateWithSocketServer = Some 1, Create_worker = Some 2, Create_signaling = Some 3,
      CreatePeerConnectionFactory = Some 4\<rparr>"

definition engine_null_factory :: engine where
  "engine_null_factory =
     \<lparr>HasThreadAccess = False, make_WebRtcFactory = 10, peerConnectionFactory = None,
      CreateWithSocketServer = Some 1, Create_worker = Some 2, Create_signaling = Some 3,
      CreatePeerConnectionFactory = None\<rparr>"

definition engine_ui_thread :: engine where
  "engine_ui_thread =
     \<lparr>HasThreadAccess = True, make_WebRtcFactory = 10, peerConnectionFactory = Some 11,
      CreateWithSocketServer = Some 1, Create_worker = Some 2, Create_signaling = Some 3,
      CreatePeerConnectionFactory = Some 4\<rparr>"

definition ready_state :: GlobalFactory where
  "ready_state =
     \<lparr>factory = Some 4, impl = None, network_thread = Some 1, worker_thread = Some 2,
      signaling_thread = Some 3, alive_objects = [7 \<mapsto> kPeerConnection]\<rparr>"

text \<open>The desktop state after an initialization whose factory construction returned null.\<close>

definition failed_state :: GlobalFactory where
  "failed_state =
     \<lparr>factory = None, impl = None, network_thread = Some 1, worker_thread = Some 2,
      signaling_thread = Some 3, alive_objects = Map.empty\<rparr>"

text \<open>
  A buffer whose vector has \<open>2\<^sup>3\<^sup>1\<close> samples, and a small one of which two
  samples are used.
\<close>

definition huge_buffer :: "nat Buffer" where
  "huge_buffer = \<lparr>data = replicate (2 ^ 31) 0, used = 0, channels = 1, rate = 48000\<rparr>"

definition small_buffer :: "nat Buffer" where
  "small_buffer = \<lparr>data = [10, 20, 30, 40, 50], used = 2, channels = 1, rate = 48000\<rparr>"

text \<open>
  A frame buffer with a horizon of 40 ms, an empty FIFO and an empty working buffer, and
  the same after five slices are pushed; slice \<open>i\<close> carries two samples of value
  \<open>i\<close>.
\<close>

definition slice :: "nat \<Rightarrow> AudioFrame" where
  "slice i = \<lparr>payload = [i, i], bitsPerSample = 16, sampleRate = 48000, channelCount = 1,
              frameCount = 2\<rparr>"

definition no_slices :: "nat FrameBuffer" where
  "no_slices =
     \<lparr>fifo = [],
      cursor = \<lparr>pendingSamples = [], consumedOffset = 0, targetRate = 48000, targetChannels = 1\<rparr>,
      bufferMs = 40\<rparr>"

definition five_slices :: "nat FrameBuffer" where
  "five_slices =
     \<lparr>fifo = [slice 1, slice 2, slice 3, slice 4, slice 5],
      cursor = \<lparr>pendingSamples = [], consumedOffset = 0, targetRate = 48000, targetChannels = 1\<rparr>,
      bufferMs = 40\<rparr>"

section \<open>Properties of the global factory\<close>

subsection \<open>Auxiliary facts\<close>

lemma catch_all_simps [simp]:
  "catch_all (Returned x) s = Returned x"
  "catch_all Thrown s = Returned s"
  "catch_all Aborted s = Aborted"
  by (simp_all add: catch_all_def)

lemma Initialize_aborts_when_created:
  "factory s \<noteq> None \<Longrightarrow> Initialize winuwp e s = Aborted"
  by (simp add: Initialize_def)

lemma RemoveObject_absent:
  "alive_objects s obj = None \<Longrightarrow> RemoveObject winuwp type obj s = Returned s"
  by (simp add: RemoveObject_def RemoveObject_body_def)

lemma RemoveObject_present:
  "alive_objects s obj = Some k \<Longrightarrow>
   RemoveObject winuwp type obj s =
     (if k \<noteq> type then Aborted
      else if (alive_objects s)(obj := None) = Map.empty
           then Returned (ShutdownNoLock winuwp (s\<lparr>alive_objects := Map.empty\<rparr>))
           else Returned (s\<lparr>alive_objects := (alive_objects s)(obj := None)\<rparr>))"
  by (simp add: RemoveObject_def RemoveObject_body_def Let_def)

lemma Uninitialized_ShutdownNoLock: "Uninitialized winuwp (ShutdownNoLock winuwp s)"
  by (simp add: Uninitialized_def threads_absent_def ShutdownNoLock_def)

lemma Initialize_ok:
  assumes "factory s = None" "winuwp \<longrightarrow> impl s = None" "engine_ok winuwp e"
  shows "\<exists>s'. Initialize winuwp e s = Returned (kSuccess, s') \<and>
           factory s' = new_factory winuwp e \<and> Ready winuwp s' \<and>
           alive_objects s' = alive_objects s"
proof (cases winuwp)
  case True
  with assms show ?thesis
    by (auto simp: Initialize_def engine_ok_def new_factory_def success_of_def Ready_def
        threads_present_def Let_def)
next
  case False
  with assms obtain n wk sg h where
    "CreateWithSocketServer e = Some n" "Create_worker e = Some wk"
    "Create_signaling e = Some sg" "CreatePeerConnectionFactory e = Some h"
    by (auto simp: engine_ok_def new_factory_def)
  with False assms(1) show ?thesis
    by (simp add: Initialize_def new_factory_def success_of_def Ready_def
        threads_present_def Let_def)
qed

subsection \<open>Teardown with the last object\<close>

text \<open>
  C1. If \<^verbatim>\<open>RemoveObject\<close> removes the last element of the alive-set (the object is
  recorded with the kind given, and nothing else is), the call returns in a state whose
  alive-set is empty, whose factory handle is cleared and whose threads are gone (the
  state is \<open>Uninitialized\<close>); and a following \<^verbatim>\<open>GetOrCreate\<close>, on an engine on
  which initialization succeeds, runs the initialization again and returns the handle the
  engine builds in that run, leaving the factory \<open>Ready\<close>.
\<close>

theorem RemoveObject_last_tears_down:
  assumes "alive_objects s obj = Some type"
    and "(alive_objects s)(obj := None) = Map.empty"
  shows "\<exists>s'. RemoveObject winuwp type obj s = Returned s' \<and>
           alive_objects s' = Map.empty \<and> Uninitialized winuwp s' \<and>
           (\<forall>e. engine_ok winuwp e \<longrightarrow>
              (\<exists>s''. GetOrCreate winuwp e s' = Returned (new_factory winuwp e, s'') \<and>
                     factory s'' = new_factory winuwp e \<and> Ready winuwp s''))"
proof -
  let ?s' = "ShutdownNoLock winuwp (s\<lparr>alive_objects := Map.empty\<rparr>)"
  have r: "RemoveObject winuwp type obj s = Returned ?s'"
    using assms by (simp add: RemoveObject_present)
  have u: "Uninitialized winuwp ?s'" by (rule Uninitialized_ShutdownNoLock)
  have a: "alive_objects ?s' = Map.empty" by (simp add: ShutdownNoLock_def)
  have f: "factory ?s' = None" and i: "winuwp \<longrightarrow> impl ?s' = None"
    using u by (auto simp: Uninitialized_def threads_absent_def)
  have "\<exists>s''. GetOrCreate winuwp e ?s' = Returned (new_factory winuwp e, s'') \<and>
              factory s'' = new_factory winuwp e \<and> Ready winuwp s''"
    if ok: "engine_ok winuwp e" for e
  proof -
    from Initialize_ok [OF f i ok] obtain s'' where
      "Initialize winuwp e ?s' = Returned (kSuccess, s'')"
      "factory s'' = new_factory winuwp e" "Ready winuwp s''" by blast
    then show ?thesis using f by (simp add: GetOrCreate_def)
  qed
  with r u a show ?thesis by blast
qed

theorem RemoveObject_last_tears_down_witness:
  "RemoveObject False kPeerConnection 7 ready_state = Returned g_factory \<and>
   Uninitialized False g_factory \<and>
   (\<exists>s''. GetOrCreate False engine_good g_factory = Returned (Some 4, s'') \<and> Ready False s'')"
proof -
  have 1: "alive_objects ready_state 7 = Some kPeerConnection"
    by (simp add: ready_state_def)
  have 2: "(alive_objects ready_state)(7 := None) = Map.empty"
    by (simp add: ready_state_def)
  have 3: "RemoveObject False kPeerConnection 7 ready_state = Returned g_factory"
    by (simp add: RemoveObject_present ready_state_def g_factory_def ShutdownNoLock_def)
  have 4: "engine_ok False engine_good" "new_factory False engine_good = Some 4"
    by (simp_all add: engine_ok_def new_factory_def engine_good_def)
  from RemoveObject_last_tears_down [OF 1 2, of False] 3 4 show ?thesis
    by auto
qed

subsection \<open>Handle and threads\<close>

lemma lifecycle_inv_alive [simp]:
  "lifecycle_inv winuwp (s\<lparr>alive_objects := m\<rparr>) = lifecycle_inv winuwp s"
  by (simp add: lifecycle_inv_def threads_present_def threads_absent_def)

lemma lifecycle_inv_ShutdownNoLock: "lifecycle_inv winuwp (ShutdownNoLock winuwp s)"
  by (simp add: lifecycle_inv_def threads_present_def threads_absent_def ShutdownNoLock_def)

lemma lifecycle_inv_Initialize:
  "Initialize winuwp e s = Returned (res, s') \<Longrightarrow> lifecycle_inv winuwp s \<Longrightarrow>
   lifecycle_inv winuwp s'"
  by (cases winuwp)
    (auto simp: Initialize_def lifecycle_inv_def threads_present_def threads_absent_def Let_def
      split: if_splits option.splits)

lemma lifecycle_inv_GetOrCreate:
  "GetOrCreate winuwp e s = Returned (r, s') \<Longrightarrow> lifecycle_inv winuwp s \<Longrightarrow>
   lifecycle_inv winuwp s'"
  by (auto simp: GetOrCreate_def split: if_splits outcome.splits dest: lifecycle_inv_Initialize)

lemma lifecycle_inv_GetOrCreate_out:
  "GetOrCreate_out winuwp e s = Returned (r, s') \<Longrightarrow> lifecycle_inv winuwp s \<Longrightarrow>
   lifecycle_inv winuwp s'"
  by (auto simp: GetOrCreate_out_def split: if_splits outcome.splits dest: lifecycle_inv_Initialize)

lemma lifecycle_inv_get:
  "get e s = Returned (r, s') \<Longrightarrow> lifecycle_inv True s \<Longrightarrow> lifecycle_inv True s'"
  by (auto simp: get_def split: if_splits outcome.splits dest: lifecycle_inv_Initialize)

lemma lifecycle_inv_GetOrCreateWebRtcFactory:
  "GetOrCreateWebRtcFactory e s = Returned (r, s') \<Longrightarrow> lifecycle_inv True s \<Longrightarrow>
   lifecycle_inv True s'"
  by (auto simp: GetOrCreateWebRtcFactory_def split: if_splits outcome.splits
      dest: lifecycle_inv_Initialize)

lemma lifecycle_inv_AddObject:
  "AddObject throws type obj s = Returned s' \<Longrightarrow> lifecycle_inv winuwp s \<Longrightarrow>
   lifecycle_inv winuwp s'"
  by (auto simp: AddObject_def AddObject_body_def split: if_splits)

lemma lifecycle_inv_RemoveObject:
  "RemoveObject winuwp type obj s = Returned s' \<Longrightarrow> lifecycle_inv winuwp s \<Longrightarrow>
   lifecycle_inv winuwp s'"
  by (cases "alive_objects s obj")
    (auto simp: RemoveObject_absent RemoveObject_present lifecycle_inv_ShutdownNoLock
      split: if_splits)

lemma lifecycle_inv_step:
  "step winuwp c s = Returned s' \<Longrightarrow> lifecycle_inv winuwp s \<Longrightarrow> lifecycle_inv winuwp s'"
proof (cases c)
  case (CallGetOrCreate e)
  assume "step winuwp c s = Returned s'" "lifecycle_inv winuwp s"
  with CallGetOrCreate show ?thesis
    by (cases "GetOrCreate winuwp e s") (auto dest: lifecycle_inv_GetOrCreate)
next
  case (CallGetOrCreate_out e)
  assume "step winuwp c s = Returned s'" "lifecycle_inv winuwp s"
  with CallGetOrCreate_out show ?thesis
    by (cases "GetOrCreate_out winuwp e s") (auto dest: lifecycle_inv_GetOrCreate_out)
next
  case CallGetExisting
  assume "step winuwp c s = Returned s'" "lifecycle_inv winuwp s"
  with CallGetExisting show ?thesis by (auto simp: GetExisting_def)
next
  case (CallGet e)
  assume "step winuwp c s = Returned s'" "lifecycle_inv winuwp s"
  with CallGet show ?thesis
    by (cases "get e s") (auto split: if_splits dest: lifecycle_inv_get)
next
  case (CallGetOrCreateWebRtcFactory e)
  assume "step winuwp c s = Returned s'" "lifecycle_inv winuwp s"
  with CallGetOrCreateWebRtcFactory show ?thesis
    by (cases "GetOrCreateWebRtcFactory e s")
      (auto split: if_splits dest: lifecycle_inv_GetOrCreateWebRtcFactory)
next
  case (CallAddObject throws type obj)
  assume "step winuwp c s = Returned s'" "lifecycle_inv winuwp s"
  with CallAddObject show ?thesis by (auto dest: lifecycle_inv_AddObject)
next
  case (CallRemoveObject type obj)
  assume "step winuwp c s = Returned s'" "lifecycle_inv winuwp s"
  with CallRemoveObject show ?thesis by (auto dest: lifecycle_inv_RemoveObject)
qed

lemma lifecycle_inv_run:
  "run winuwp cs s = Returned s' \<Longrightarrow> lifecycle_inv winuwp s \<Longrightarrow> lifecycle_inv winuwp s'"
proof (induction cs arbitrary: s)
  case Nil
  then show ?case by simp
next
  case (Cons c cs)
  then show ?case
    by (cases "step winuwp c s") (auto dest: lifecycle_inv_step)
qed

lemma lifecycle_inv_g_factory: "lifecycle_inv winuwp g_factory"
  by (simp add: lifecycle_inv_def threads_present_def threads_absent_def g_factory_def)

text \<open>
  The claim C2 as stated, that handle and threads are all present or all absent in every
  reachable state, fails: in the desktop build \<^verbatim>\<open>Initialize\<close> starts the three
  threads before it builds the factory, and returns \<^verbatim>\<open>kUnknownError\<close> without
  resetting them when the factory construction returns null.
\<close>

theorem failed_Initialize_leaves_threads:
  "run False [CallGetOrCreate engine_null_factory] g_factory = Returned failed_state \<and>
   \<not> Ready False failed_state \<and> \<not> Uninitialized False failed_state"
  by (simp add: GetOrCreate_def Initialize_def engine_null_factory_def g_factory_def
      failed_state_def success_of_def Ready_def Uninitialized_def threads_absent_def)

text \<open>
  C2, amended. In every state reached from the initial one by calls of the public member
  functions, a present factory handle implies present threads, and the threads are all
  present or all absent; \<^verbatim>\<open>ShutdownNoLock\<close> clears handle and threads together,
  and an \<^verbatim>\<open>Initialize\<close> that returns \<^verbatim>\<open>kSuccess\<close> leaves both
  present.
\<close>

theorem reachable_handle_implies_threads:
  assumes "run winuwp cs g_factory = Returned s"
  shows "(factory s \<noteq> None \<longrightarrow> threads_present winuwp s) \<and>
         (threads_present winuwp s \<or> threads_absent winuwp s) \<and>
         Uninitialized winuwp (ShutdownNoLock winuwp s) \<and>
         (\<forall>e s'. Initialize winuwp e s = Returned (kSuccess, s') \<longrightarrow> Ready winuwp s')"
proof -
  have inv: "lifecycle_inv winuwp s"
    using assms lifecycle_inv_g_factory by (rule lifecycle_inv_run)
  have "Ready winuwp s'" if "Initialize winuwp e s = Returned (kSuccess, s')" for e s'
  proof -
    from that have "factory s = None"
      by (auto simp: Initialize_def split: if_splits)
    moreover from that have "factory s' \<noteq> None"
      by (cases winuwp)
        (auto simp: Initialize_def Let_def success_of_def split: if_splits option.splits)
    moreover have "lifecycle_inv winuwp s'"
      using that inv by (rule lifecycle_inv_Initialize)
    ultimately show ?thesis by (simp add: Ready_def lifecycle_inv_def)
  qed
  with inv show ?thesis
    by (simp add: lifecycle_inv_def Uninitialized_ShutdownNoLock)
qed

theorem reachable_handle_implies_threads_witness:
  "run False [CallGetOrCreate engine_good, CallAddObject False kPeerConnection 7] g_factory
     = Returned ready_state \<and>
   threads_present False ready_state \<and>
   Uninitialized False (ShutdownNoLock False ready_state)"
proof -
  have r: "run False [CallGetOrCreate engine_good, CallAddObject False kPeerConnection 7] g_factory
     = Returned ready_state"
    by (simp add: GetOrCreate_def Initialize_def engine_good_def g_factory_def
      ready_state_def success_of_def AddObject_def AddObject_body_def emplace_def)
  have "factory ready_state \<noteq> None" by (simp add: ready_state_def)
  with reachable_handle_implies_threads [OF r] r show ?thesis by simp
qed


subsection \<open>Failure of the acquisition\<close>

lemma Initialize_returns:
  assumes "factory s = None" "threads_start winuwp e s"
  shows "\<exists>s'. Initialize winuwp e s =
            Returned (if winuwp \<and> HasThreadAccess e then kWrongThread
                      else success_of (new_factory winuwp e), s') \<and>
          factory s' = (if winuwp \<and> HasThreadAccess e then None else new_factory winuwp e) \<and>
          (winuwp \<and> HasThreadAccess e \<longrightarrow> s' = s) \<and>
          (\<not> winuwp \<longrightarrow> (\<forall>e'. Initialize winuwp e' s' = Initialize winuwp e' s
                                   \<or> factory s' \<noteq> None))"
proof (cases winuwp)
  case True
  with assms show ?thesis
    by (simp add: Initialize_def threads_start_def new_factory_def Let_def)
next
  case False
  with assms obtain n wk sg where c:
    "CreateWithSocketServer e = Some n" "Create_worker e = Some wk"
    "Create_signaling e = Some sg"
    by (auto simp: threads_start_def)
  with False assms(1) show ?thesis
    by (auto simp: Initialize_def new_factory_def Let_def split: option.splits)
qed

text \<open>
  The claim C3 as stated fails in two places. In the UWP build \<^verbatim>\<open>GetOrCreate\<close>
  also fails, with \<^verbatim>\<open>kWrongThread\<close>, when the caller has access to the
  dispatcher thread, although no factory construction returned null (none was attempted).
  In the desktop build the state after a failed construction is not \<open>Uninitialized\<close>:
  the threads started by the failed attempt remain.
\<close>

theorem GetOrCreate_out_counterexample:
  "GetOrCreate_out True engine_ui_thread g_factory = Returned ((kWrongThread, None), g_factory) \<and>
   new_factory True engine_ui_thread \<noteq> None \<and>
   GetOrCreate_out False engine_null_factory g_factory
     = Returned ((kUnknownError, None), failed_state) \<and>
   \<not> Uninitialized False failed_state"
  by (simp add: GetOrCreate_out_def Initialize_def engine_ui_thread_def engine_null_factory_def
      g_factory_def failed_state_def success_of_def new_factory_def Uninitialized_def
      threads_absent_def)

text \<open>
  C3, amended. Let no factory handle be stored, and let no \<^verbatim>\<open>RTC_CHECK\<close> of
  \<^verbatim>\<open>Initialize\<close> stop the call (\<open>threads_start\<close>: in the desktop build the
  engine creates the three threads, in the UWP build \<^verbatim>\<open>impl_\<close> is not set).
  Then the out-parameter overload of \<^verbatim>\<open>GetOrCreate\<close> returns, and it fails if
  and only if the caller is the UI thread of the UWP build or the factory construction
  returns null. On success the out-parameter is the new handle, which is stored. On
  failure the out-parameter is null and no handle is stored; in the desktop build, and
  after \<^verbatim>\<open>kWrongThread\<close>, a later call is then answered exactly as it would
  have been before the failed one, that is, it initializes again.
\<close>

theorem GetOrCreate_out_failure:
  assumes "factory s = None" and "threads_start winuwp e s"
  shows "\<exists>res out s'. GetOrCreate_out winuwp e s = Returned ((res, out), s') \<and>
           (res \<noteq> kSuccess \<longleftrightarrow> (winuwp \<and> HasThreadAccess e) \<or> new_factory winuwp e = None) \<and>
           (res = kSuccess \<longrightarrow> out = new_factory winuwp e \<and> factory s' = out) \<and>
           (res \<noteq> kSuccess \<longrightarrow> out = None \<and> factory s' = None \<and>
              (\<not> winuwp \<or> HasThreadAccess e \<longrightarrow>
                 (\<forall>e'. GetOrCreate_out winuwp e' s' = GetOrCreate_out winuwp e' s)))"
proof -
  from Initialize_returns [OF assms] obtain s' where
    i: "Initialize winuwp e s =
            Returned (if winuwp \<and> HasThreadAccess e then kWrongThread
                      else success_of (new_factory winuwp e), s')"
    and f: "factory s' = (if winuwp \<and> HasThreadAccess e then None else new_factory winuwp e)"
    and u: "winuwp \<and> HasThreadAccess e \<longrightarrow> s' = s"
    and d: "\<not> winuwp \<longrightarrow> (\<forall>e'. Initialize winuwp e' s' = Initialize winuwp e' s
                                   \<or> factory s' \<noteq> None)"
    by blast
  show ?thesis
  proof (cases "winuwp \<and> HasThreadAccess e")
    case True
    with i f u assms(1) show ?thesis
      by (simp add: GetOrCreate_out_def)
  next
    case False
    note nt = this
    show ?thesis
    proof (cases "new_factory winuwp e")
      case None
      have "GetOrCreate_out winuwp e' s' = GetOrCreate_out winuwp e' s" if "\<not> winuwp" for e'
        using that d f None nt assms(1) by (auto simp: GetOrCreate_out_def)
      with i f nt None assms(1) show ?thesis
        by (auto simp: GetOrCreate_out_def success_of_def)
    next
      case (Some h)
      with i f nt assms(1) show ?thesis
        by (simp add: GetOrCreate_out_def success_of_def)
    qed
  qed
qed

theorem GetOrCreate_out_failure_witness:
  "GetOrCreate_out False engine_null_factory g_factory
     = Returned ((kUnknownError, None), failed_state) \<and>
   GetOrCreate_out False engine_good failed_state = GetOrCreate_out False engine_good g_factory"
proof -
  have 1: "factory g_factory = None" by (simp add: g_factory_def)
  have 2: "threads_start False engine_null_factory g_factory"
    by (simp add: threads_start_def engine_null_factory_def)
  have 3: "GetOrCreate_out False engine_null_factory g_factory
     = Returned ((kUnknownError, None), failed_state)"
    by (simp add: GetOrCreate_out_def Initialize_def engine_null_factory_def
      g_factory_def failed_state_def success_of_def)
  from GetOrCreate_out_failure [OF 1 2] 3 show ?thesis by auto
qed


text \<open>
  The remaining case, on which the statement above is silent: in the UWP build a failed
  factory construction leaves \<^verbatim>\<open>impl_\<close> set, and every later
  \<^verbatim>\<open>GetOrCreate\<close> then aborts on \<^verbatim>\<open>RTC_CHECK(!impl_)\<close> instead of
  initializing again.
\<close>

theorem UWP_retry_aborts:
  assumes "factory s = None" and "impl s = None" and "\<not> HasThreadAccess e"
    and "peerConnectionFactory e = None"
  shows "GetOrCreate_out True e s
           = Returned ((kUnknownError, None), s\<lparr>impl := Some (make_WebRtcFactory e)\<rparr>) \<and>
         GetOrCreate_out True e' (s\<lparr>impl := Some (make_WebRtcFactory e)\<rparr>) = Aborted \<and>
         GetOrCreate True e' (s\<lparr>impl := Some (make_WebRtcFactory e)\<rparr>) = Aborted"
  using assms
  by (simp add: GetOrCreate_out_def GetOrCreate_def Initialize_def Let_def success_of_def)

theorem UWP_retry_aborts_witness:
  "GetOrCreate_out True engine_null_factory g_factory
     = Returned ((kUnknownError, None), g_factory\<lparr>impl := Some 10\<rparr>) \<and>
   GetOrCreate_out True engine_good (g_factory\<lparr>impl := Some 10\<rparr>) = Aborted"
proof -
  have "factory g_factory = None" "impl g_factory = None"
    "\<not> HasThreadAccess engine_null_factory" "peerConnectionFactory engine_null_factory = None"
    "make_WebRtcFactory engine_null_factory = 10"
    by (simp_all add: g_factory_def engine_null_factory_def)
  with UWP_retry_aborts [of g_factory engine_null_factory engine_good]
  show ?thesis by simp
qed

subsection \<open>Idempotent acquisition\<close>

lemma GetOrCreate_ready:
  "factory s = Some h \<Longrightarrow> GetOrCreate winuwp e s = Returned (Some h, s)"
  by (simp add: GetOrCreate_def)

lemma GetOrCreate_out_ready:
  "factory s = Some h \<Longrightarrow> GetOrCreate_out winuwp e s = Returned ((kSuccess, Some h), s)"
  by (simp add: GetOrCreate_out_def success_of_def)

lemma step_keeps_factory:
  assumes "factory s = Some h" "\<not> empties c s" "step winuwp c s = Returned s'"
  shows "factory s' = Some h"
proof (cases c)
  case (CallGetOrCreate e)
  with assms show ?thesis by (simp add: GetOrCreate_ready)
next
  case (CallGetOrCreate_out e)
  with assms show ?thesis by (simp add: GetOrCreate_out_ready)
next
  case CallGetExisting
  with assms show ?thesis by (auto simp: GetExisting_def)
next
  case (CallGet e)
  with assms show ?thesis
    by (auto simp: get_def Initialize_aborts_when_created split: if_splits)
next
  case (CallGetOrCreateWebRtcFactory e)
  with assms show ?thesis
    by (auto simp: GetOrCreateWebRtcFactory_def Initialize_aborts_when_created
        split: if_splits)
next
  case (CallAddObject throws type obj)
  with assms show ?thesis by (auto simp: AddObject_def AddObject_body_def split: if_splits)
next
  case (CallRemoveObject type obj)
  with assms show ?thesis
    by (cases "alive_objects s obj")
      (auto simp: RemoveObject_absent RemoveObject_present split: if_splits)
qed

lemma run_keeps_factory:
  "factory s = Some h \<Longrightarrow> no_teardown winuwp cs s \<Longrightarrow> run winuwp cs s = Returned s' \<Longrightarrow>
   factory s' = Some h"
proof (induction cs arbitrary: s)
  case Nil
  then show ?case by simp
next
  case (Cons c cs)
  from Cons.prems(3) obtain s1 where s1: "step winuwp c s = Returned s1"
    and r: "run winuwp cs s1 = Returned s'"
    by (cases "step winuwp c s") auto
  from Cons.prems(2) s1 have ne: "\<not> empties c s" and nt: "no_teardown winuwp cs s1"
    by auto
  from Cons.prems(1) ne s1 have "factory s1 = Some h" by (rule step_keeps_factory)
  from this nt r show ?case by (rule Cons.IH)
qed

text \<open>
  C4. Once a factory handle \<open>h\<close> is stored, after any sequence of calls in which no
  \<^verbatim>\<open>RemoveObject\<close> unregisters the last alive object, the handle stored is still
  \<open>h\<close>, and both overloads of \<^verbatim>\<open>GetOrCreate\<close> return \<open>h\<close> and leave the
  state as it is, whatever the engine would answer: they do not run
  \<^verbatim>\<open>Initialize\<close>, which in such a state would abort on
  \<^verbatim>\<open>RTC_CHECK(!factory_)\<close>.
\<close>

theorem GetOrCreate_idempotent:
  assumes "factory s = Some h" and "no_teardown winuwp cs s"
    and "run winuwp cs s = Returned s'"
  shows "factory s' = Some h \<and>
         GetOrCreate winuwp e s' = Returned (Some h, s') \<and>
         GetOrCreate_out winuwp e s' = Returned ((kSuccess, Some h), s') \<and>
         Initialize winuwp e s' = Aborted"
proof -
  from assms have f: "factory s' = Some h" by (rule run_keeps_factory)
  then show ?thesis
    by (simp add: GetOrCreate_ready GetOrCreate_out_ready Initialize_aborts_when_created)
qed

theorem GetOrCreate_idempotent_witness:
  "run False [CallGetOrCreate engine_null_factory, CallAddObject False kLocalVideoTrack 8,
              CallRemoveObject kLocalVideoTrack 8] ready_state = Returned ready_state \<and>
   GetOrCreate False engine_null_factory ready_state = Returned (Some 4, ready_state)"
proof -
  let ?cs = "[CallGetOrCreate engine_null_factory, CallAddObject False kLocalVideoTrack 8,
              CallRemoveObject kLocalVideoTrack 8]"
  have 1: "factory ready_state = Some 4" by (simp add: ready_state_def)
  have g: "GetOrCreate False engine_null_factory ready_state = Returned (Some 4, ready_state)"
    using 1 by (rule GetOrCreate_ready)
  have a: "AddObject False kLocalVideoTrack 8 ready_state
             = Returned (ready_state\<lparr>alive_objects := [7 \<mapsto> kPeerConnection, 8 \<mapsto> kLocalVideoTrack]\<rparr>)"
    by (simp add: AddObject_def AddObject_body_def emplace_def ready_state_def)
  have r: "RemoveObject False kLocalVideoTrack 8
             (ready_state\<lparr>alive_objects := [7 \<mapsto> kPeerConnection, 8 \<mapsto> kLocalVideoTrack]\<rparr>)
             = Returned ready_state"
    by (simp add: RemoveObject_present ready_state_def)
  have e: "\<not> empties (CallRemoveObject kLocalVideoTrack 8)
             (ready_state\<lparr>alive_objects := [7 \<mapsto> kPeerConnection, 8 \<mapsto> kLocalVideoTrack]\<rparr>)"
    by (simp add: ready_state_def)
  have 3: "run False ?cs ready_state = Returned ready_state"
    by (simp add: g a r)
  have 2: "no_teardown False ?cs ready_state"
    using e by (simp add: g a r)
  from GetOrCreate_idempotent [OF 1 2 3] 3 show ?thesis by simp
qed

subsection \<open>The registry of alive objects\<close>

text \<open>
  C5. For an object recorded with kind \<open>k\<close>, \<^verbatim>\<open>RemoveObject\<close> aborts on its
  \<^verbatim>\<open>RTC_CHECK\<close> exactly when it is called with a kind other than \<open>k\<close>; and
  an object that was not recorded is recorded with kind \<open>k\<close> by a registration whose
  insertion does not throw.
\<close>

theorem RemoveObject_kind_check:
  "(alive_objects s obj = Some k \<longrightarrow>
      (RemoveObject winuwp type obj s = Aborted \<longleftrightarrow> type \<noteq> k)) \<and>
   (alive_objects s obj = None \<longrightarrow>
      (\<exists>s1. AddObject False k obj s = Returned s1 \<and> alive_objects s1 obj = Some k \<and>
            (RemoveObject winuwp type obj s1 = Aborted \<longleftrightarrow> type \<noteq> k)))"
  by (auto simp: RemoveObject_present AddObject_def AddObject_body_def emplace_def)

theorem RemoveObject_kind_check_witness:
  "RemoveObject False kLocalVideoTrack 7 ready_state = Aborted \<and>
   RemoveObject False kExternalVideoTrackSource 7 ready_state = Aborted \<and>
   RemoveObject False kPeerConnection 7 ready_state \<noteq> Aborted"
proof -
  have 1: "alive_objects ready_state 7 = Some kPeerConnection"
    by (simp add: ready_state_def)
  from RemoveObject_kind_check [of ready_state 7 kPeerConnection False] 1
  show ?thesis by simp
qed

text \<open>
  C6. \<^verbatim>\<open>AddObject\<close> returns normally for every kind, object and state: when the
  insertion throws, in the state it was called in, otherwise with the object inserted.
\<close>

theorem AddObject_never_fails:
  "AddObject throws type obj s =
     Returned (if throws then s
               else s\<lparr>alive_objects := emplace obj type (alive_objects s)\<rparr>)"
  by (simp add: AddObject_def AddObject_body_def)

theorem AddObject_never_fails_witness:
  "AddObject True kPeerConnection 7 g_factory = Returned g_factory \<and>
   AddObject_body True kPeerConnection 7 g_factory = Thrown"
  using AddObject_never_fails [of True kPeerConnection 7 g_factory]
  by (simp add: AddObject_body_def)

text \<open>
  C9. \<^verbatim>\<open>RemoveObject\<close> of an object that is not in the alive-set returns in the
  state it was called in, for every kind: no check fails, nothing is erased, nothing is
  torn down.
\<close>

theorem RemoveObject_unknown_is_noop:
  "alive_objects s obj = None \<Longrightarrow> RemoveObject winuwp type obj s = Returned s"
  by (rule RemoveObject_absent)

theorem RemoveObject_unknown_is_noop_witness:
  "RemoveObject False kLocalVideoTrack 9 ready_state = Returned ready_state"
proof -
  have "alive_objects ready_state 9 = None" by (simp add: ready_state_def)
  then show ?thesis by (rule RemoveObject_unknown_is_noop)
qed


section \<open>Properties of the audio read stream\<close>

subsection \<open>\<^verbatim>\<open>Buffer::readSome\<close>\<close>

lemma int32_id: "- (2 ^ 31) \<le> x \<Longrightarrow> x < 2 ^ 31 \<Longrightarrow> int32 x = x"
  by (simp add: int32_def)

lemma available_in_range:
  assumes "Buffer_inv b" "length (data b) < 2 ^ 31"
  shows "available b = int (length (data b)) - used b"
proof -
  from assms(2) have l: "int (length (data b)) < 2 ^ 31" by simp
  then have "int32 (int (length (data b))) = int (length (data b))"
    by (simp add: int32_id)
  moreover from assms(1) l have "int32 (int (length (data b)) - used b) = int (length (data b)) - used b"
    by (intro int32_id) (auto simp: Buffer_inv_def)
  ultimately show ?thesis by (simp add: available_def)
qed

text \<open>
  The claim C10 as stated, for every buffer with \<open>0 \<le> used_ \<le> data_.size()\<close> and every
  \<open>dstLen \<ge> 0\<close>, fails where the size of the vector does not fit an \<^verbatim>\<open>int\<close>:
  with \<open>2\<^sup>3\<^sup>1\<close> samples and none used, \<^verbatim>\<open>(int)data_.size()\<close> is
  \<open>-2\<^sup>3\<^sup>1\<close>, so is \<^verbatim>\<open>take\<close>, and \<^verbatim>\<open>memcpy\<close> is asked for a
  range outside the vector.
\<close>

theorem readSome_counterexample:
  "Buffer_inv huge_buffer \<and> available huge_buffer = - (2 ^ 31) \<and>
   readSome huge_buffer 1 = Inl OutOfBounds"
  by (simp add: Buffer_inv_def huge_buffer_def readSome_def available_def int32_def Let_def)

text \<open>
  C10, amended. For a buffer with \<open>0 \<le> used_ \<le> data_.size()\<close> whose size fits an
  \<^verbatim>\<open>int\<close> (less than \<open>2\<^sup>3\<^sup>1\<close> samples) and for every \<open>dstLen \<ge> 0\<close>,
  \<^verbatim>\<open>readSome\<close> returns \<open>min(available(), dstLen)\<close>, copies exactly that many
  samples, those from \<^verbatim>\<open>used_\<close> on, without reading outside the vector, advances
  \<^verbatim>\<open>used_\<close> by that amount, and the invariant holds again afterwards.
\<close>

theorem readSome_within_int_range:
  assumes "Buffer_inv b" and "0 \<le> dstLen" and "length (data b) < 2 ^ 31"
  shows "readSome b dstLen =
           Inr (min (int (length (data b)) - used b) dstLen,
                take (nat (min (int (length (data b)) - used b) dstLen))
                  (drop (nat (used b)) (data b)),
                b\<lparr>used := used b + min (int (length (data b)) - used b) dstLen\<rparr>) \<and>
         available b = int (length (data b)) - used b \<and>
         int (length (take (nat (min (int (length (data b)) - used b) dstLen))
                        (drop (nat (used b)) (data b))))
           = min (int (length (data b)) - used b) dstLen \<and>
         Buffer_inv (b\<lparr>used := used b + min (int (length (data b)) - used b) dstLen\<rparr>)"
proof -
  let ?n = "min (int (length (data b)) - used b) dstLen"
  have av: "available b = int (length (data b)) - used b"
    using assms(1,3) by (rule available_in_range)
  from assms have n: "0 \<le> ?n" "used b + ?n \<le> int (length (data b))" "0 \<le> used b"
    by (auto simp: Buffer_inv_def)
  from assms(3) have l: "int (length (data b)) < 2 ^ 31" by simp
  with n have w: "int32 (used b + ?n) = used b + ?n"
    by (intro int32_id) auto
  have len: "int (length (take (nat ?n) (drop (nat (used b)) (data b)))) = ?n"
    using n by auto
  have r: "readSome b dstLen = Inr (?n, take (nat ?n) (drop (nat (used b)) (data b)),
              b\<lparr>used := used b + ?n\<rparr>)"
    using n by (simp add: readSome_def av Let_def w)
  have "Buffer_inv (b\<lparr>used := used b + ?n\<rparr>)"
    using n by (simp add: Buffer_inv_def)
  with r len av show ?thesis by simp
qed

theorem readSome_within_int_range_witness:
  "readSome small_buffer 2 = Inr (2, [30, 40], small_buffer\<lparr>used := 4\<rparr>) \<and>
   readSome small_buffer 7 = Inr (3, [30, 40, 50], small_buffer\<lparr>used := 5\<rparr>)"
proof -
  have 1: "Buffer_inv small_buffer" by (simp add: Buffer_inv_def small_buffer_def)
  have 3: "length (data small_buffer) < 2 ^ 31" by (simp add: small_buffer_def)
  from readSome_within_int_range [OF 1 _ 3, of 2] readSome_within_int_range [OF 1 _ 3, of 7]
  show ?thesis
    by (simp add: small_buffer_def)
qed


subsection \<open>\<^verbatim>\<open>read\<close> and the overrun policy\<close>

lemma dropOldest_suffix: "\<exists>d. dropOldest h fs = drop d fs"
proof (induction fs)
  case Nil
  show ?case by simp
next
  case (Cons f fs)
  then obtain d where d: "dropOldest h fs = drop d fs" by blast
  show ?case
  proof (cases "h < int (length (f # fs)) * sliceMs")
    case True
    with d have "dropOldest h (f # fs) = drop (Suc d) (f # fs)" by simp
    then show ?thesis by blast
  next
    case False
    then have "dropOldest h (f # fs) = drop 0 (f # fs)" by simp
    then show ?thesis by blast
  qed
qed

lemma dropOldest_bound:
  "dropOldest h fs = [] \<or> int (length (dropOldest h fs)) * sliceMs \<le> h"
  by (induction fs) auto

lemma dropOldest_within: "int (length fs) * sliceMs \<le> h \<Longrightarrow> dropOldest h fs = fs"
  by (cases fs) auto

lemma refill_consumes:
  "refill rs n fs c = (fs', c') \<Longrightarrow>
   \<exists>k. fs' = drop k fs \<and> k \<le> length fs \<and>
       pendingSamples c' = pendingSamples c @ concat (map rs (take k fs)) \<and>
       consumedOffset c' = consumedOffset c \<and>
       targetRate c' = targetRate c \<and> targetChannels c' = targetChannels c \<and>
       (n \<le> unread c' \<or> k = length fs)"
proof (induction fs arbitrary: c)
  case Nil
  then show ?case by simp
next
  case (Cons f fs)
  show ?case
  proof (cases "unread c < n")
    case True
    let ?c1 = "c\<lparr>pendingSamples := pendingSamples c @ rs f\<rparr>"
    from True Cons.prems have "refill rs n fs ?c1 = (fs', c')" by simp
    from Cons.IH [OF this] obtain k where k:
      "fs' = drop k fs" "k \<le> length fs"
      "pendingSamples c' = pendingSamples ?c1 @ concat (map rs (take k fs))"
      "consumedOffset c' = consumedOffset ?c1"
      "targetRate c' = targetRate ?c1" "targetChannels c' = targetChannels ?c1"
      "n \<le> unread c' \<or> k = length fs"
      by blast
    then have "fs' = drop (Suc k) (f # fs) \<and> Suc k \<le> length (f # fs) \<and>
       pendingSamples c' = pendingSamples c @ concat (map rs (take (Suc k) (f # fs))) \<and>
       consumedOffset c' = consumedOffset c \<and>
       targetRate c' = targetRate c \<and> targetChannels c' = targetChannels c \<and>
       (n \<le> unread c' \<or> Suc k = length (f # fs))"
      by simp
    then show ?thesis by blast
  next
    case False
    with Cons.prems have "fs' = f # fs" "c' = c" by simp_all
    with False have "fs' = drop 0 (f # fs) \<and> 0 \<le> length (f # fs) \<and>
       pendingSamples c' = pendingSamples c @ concat (map rs (take 0 (f # fs))) \<and>
       consumedOffset c' = consumedOffset c \<and>
       targetRate c' = targetRate c \<and> targetChannels c' = targetChannels c \<and>
       (n \<le> unread c' \<or> 0 = length (f # fs))"
      by simp
    then show ?thesis by blast
  qed
qed





lemma fold_pushFrame:
  "fifo (fold pushFrame frames st) = fifo st @ frames"
  "bufferMs (fold pushFrame frames st) = bufferMs st"
  "cursor (fold pushFrame frames st) = cursor st"
  by (induction frames arbitrary: st) (simp_all add: pushFrame_def)

text \<open>
  C8. After any frames are pushed with no read in between, the raw frames that the next
  \<^verbatim>\<open>read\<close> retains for resampling are what is left of the FIFO after its oldest
  frames are dropped; they stand for at most the horizon (or none is retained), and
  nothing is dropped when the FIFO is within the horizon. The
  \<^verbatim>\<open>read\<close> then consumes a prefix of the retained frames, oldest first: the FIFO
  afterwards is the rest, and the working buffer has grown by the resampled prefix, in
  order.
\<close>

theorem read_overrun_bound:
  assumes "st = fold pushFrame frames st0"
    and "retained = dropOldest (horizonMs autoMs (bufferMs st0)) (fifo st0 @ frames)"
    and "st' = snd (read resample filler autoMs r ch n st)"
  shows "(\<exists>d. retained = drop d (fifo st0 @ frames)) \<and>
         (retained = [] \<or> int (length retained) * sliceMs \<le> horizonMs autoMs (bufferMs st0)) \<and>
         (int (length (fifo st0 @ frames)) * sliceMs \<le> horizonMs autoMs (bufferMs st0)
            \<longrightarrow> retained = fifo st0 @ frames) \<and>
         (\<exists>k. fifo st' = drop k retained \<and>
              pendingSamples (cursor st')
                = pendingSamples (cursor st0) @ concat (map (resample r ch) (take k retained)))"
proof -
  have st: "fifo st = fifo st0 @ frames" "bufferMs st = bufferMs st0" "cursor st = cursor st0"
    unfolding assms(1) by (rule fold_pushFrame)+
  obtain fs1 c1 where rf:
    "refill (resample r ch) n retained
           ((cursor st)\<lparr>targetRate := r, targetChannels := ch\<rparr>) = (fs1, c1)"
    by (cases "refill (resample r ch) n retained
           ((cursor st)\<lparr>targetRate := r, targetChannels := ch\<rparr>)")
  from refill_consumes [OF rf] obtain k where
    k: "fs1 = drop k retained"
    "pendingSamples c1 = pendingSamples (cursor st) @ concat (map (resample r ch) (take k retained))"
    by auto
  have "fifo st' = fs1" "pendingSamples (cursor st') = pendingSamples c1"
    using rf assms(2,3) st by (simp_all add: read_def Let_def)
  with k st have "fifo st' = drop k retained \<and>
              pendingSamples (cursor st')
                = pendingSamples (cursor st0) @ concat (map (resample r ch) (take k retained))"
    by simp
  then have "\<exists>k. fifo st' = drop k retained \<and>
              pendingSamples (cursor st')
                = pendingSamples (cursor st0) @ concat (map (resample r ch) (take k retained))"
    by (rule exI)
  moreover have "\<exists>d. retained = drop d (fifo st0 @ frames)"
    unfolding assms(2) by (rule dropOldest_suffix)
  moreover have "retained = [] \<or> int (length retained) * sliceMs \<le> horizonMs autoMs (bufferMs st0)"
    unfolding assms(2) by (rule dropOldest_bound)
  moreover have "int (length (fifo st0 @ frames)) * sliceMs \<le> horizonMs autoMs (bufferMs st0)
            \<longrightarrow> retained = fifo st0 @ frames"
    unfolding assms(2) by (simp add: dropOldest_within)
  ultimately show ?thesis by blast
qed

theorem read_overrun_bound_witness:
  "dropOldest (horizonMs 20 (bufferMs no_slices)) (fifo no_slices @ map slice [1, 2, 3, 4, 5])
     = [slice 2, slice 3, slice 4, slice 5] \<and>
   int (length [slice 2, slice 3, slice 4, slice 5]) * sliceMs
     \<le> horizonMs 20 (bufferMs no_slices) \<and>
   (\<exists>k. fifo (snd (read (\<lambda>r ch. payload) (\<lambda>i. 0) 20 48000 1 3 five_slices))
          = drop k [slice 2, slice 3, slice 4, slice 5] \<and>
        pendingSamples (cursor (snd (read (\<lambda>r ch. payload) (\<lambda>i. 0) 20 48000 1 3 five_slices)))
          = pendingSamples (cursor no_slices) @
            concat (map payload (take k [slice 2, slice 3, slice 4, slice 5])))"
proof -
  have p: "five_slices = fold pushFrame (map slice [1, 2, 3, 4, 5]) no_slices"
    by (simp add: five_slices_def no_slices_def pushFrame_def)
  have d: "dropOldest (horizonMs 20 (bufferMs no_slices)) (fifo no_slices @ map slice [1, 2, 3, 4, 5])
     = [slice 2, slice 3, slice 4, slice 5]"
    by (simp add: no_slices_def horizonMs_def sliceMs_def)
  from read_overrun_bound [OF p d [symmetric] refl,
      of "\<lambda>r ch. payload" "\<lambda>i. 0" 48000 1 3]
  show ?thesis using d by simp
qed


end
